theory Spec2Isabelle
  imports Complex_Main
begin

section \<open>JavaScript values used by server.js\<close>

text \<open>
  The oracle backend is one file, \<^verbatim>\<open>src/server.js\<close>. Its state is three module-level
  variables (the array \<^verbatim>\<open>inMemoryDB.scans\<close>, \<^verbatim>\<open>lastProcessedBlock\<close>, \<^verbatim>\<open>isScanning\<close>);
  everything else it does is a call to a collaborator (the GoPlus HTTP API, the chain
  provider, the oracle contract). The model passes the state explicitly and takes every
  collaborator's answer as an input, so that each \<^verbatim>\<open>await\<close> is either \<open>Resolved v\<close> or
  \<open>Rejected\<close> (the promise rejects and the \<^verbatim>\<open>await\<close> throws).
\<close>

datatype 'a outcome = Rejected | Resolved 'a

subsection \<open>Numbers\<close>

text \<open>
  A JavaScript Number is an IEEE-754 double. A finite double is a rational number, so a
  Number is modelled by its exact value; \<open>-0\<close> is not told apart from \<open>0\<close> (the program only
  compares Numbers with \<^verbatim>\<open>></\<close>, which does not tell them apart either).
\<close>

datatype jsnum = NaN | Fin rat | PosInf | NegInf

text \<open>\<open>bitlen n\<close> is the number of binary digits of \<open>n\<close>.\<close>

fun bitlen :: "nat \<Rightarrow> nat" where
  "bitlen n = (if n = 0 then 0 else Suc (bitlen (n div 2)))"

text \<open>\<open>ilog2 v\<close> is the binary exponent of a positive rational: \<open>2 powi (ilog2 v) \<le> v < 2 powi (ilog2 v + 1)\<close>.\<close>

definition ilog2 :: "rat \<Rightarrow> int" where
  "ilog2 v =
     (let e0 = int (bitlen (nat (fst (quotient_of v)))) - int (bitlen (nat (snd (quotient_of v))))
      in if 2 powi e0 \<le> v then e0 else e0 - 1)"

definition roundHalfEven :: "rat \<Rightarrow> int" where
  "roundHalfEven x =
     (let f = \<lfloor>x\<rfloor>; d = x - of_int f
      in if d < 1 / 2 then f
         else if 1 / 2 < d then f + 1
         else if even f then f else f + 1)"

text \<open>
  The Number value for a non-negative mathematical value (ECMAScript 6.1.6.1): the
  nearest double, ties to the even significand; 53 significant bits, the exponent not
  below that of the subnormals, and \<open>Infinity\<close> from \<open>2 ^ 1024\<close> on.
\<close>

definition numberValue :: "rat \<Rightarrow> jsnum" where
  "numberValue v =
     (if v = 0 then Fin 0
      else let e = max (ilog2 v) (- 1022);
               q = 2 powi (e - 52);
               r = of_int (roundHalfEven (v / q)) * q
           in if 2 ^ 1024 \<le> r then PosInf else Fin r)"

fun negate :: "jsnum \<Rightarrow> jsnum" where
  "negate NaN = NaN"
| "negate (Fin r) = Fin (- r)"
| "negate PosInf = NegInf"
| "negate NegInf = PosInf"

text \<open>The relational operator \<^verbatim>\<open>a > b\<close> on Numbers: false as soon as one side is \<open>NaN\<close>.\<close>

fun js_gt :: "jsnum \<Rightarrow> jsnum \<Rightarrow> bool" where
  "js_gt NaN b = False"
| "js_gt a NaN = False"
| "js_gt (Fin a) (Fin b) = (b < a)"
| "js_gt (Fin a) PosInf = False"
| "js_gt (Fin a) NegInf = True"
| "js_gt PosInf PosInf = False"
| "js_gt PosInf b = True"
| "js_gt NegInf b = False"

subsection \<open>Strings\<close>

text \<open>
  A string is a list of 8-bit code units, read as the Latin-1 range of JavaScript's
  UTF-16 code units; contract addresses and the GoPlus fields are ASCII.
  \<^verbatim>\<open>String.prototype.toLowerCase\<close> maps \<open>A..Z\<close> and the Latin-1 capitals
  (\<open>0xC0..0xDE\<close> without the multiplication sign \<open>0xD7\<close>) 32 places up.
\<close>

definition toLowerCaseUnit :: "char \<Rightarrow> char" where
  "toLowerCaseUnit c =
     (let n = (of_char c :: nat)
      in if (65 \<le> n \<and> n \<le> 90) \<or> (192 \<le> n \<and> n \<le> 222 \<and> n \<noteq> 215)
         then char_of (n + 32) else c)"

definition toLowerCase :: "string \<Rightarrow> string" where
  "toLowerCase s = map toLowerCaseUnit s"

subsection \<open>parseFloat\<close>

definition isDigit :: "char \<Rightarrow> bool" where
  "isDigit c \<longleftrightarrow> 48 \<le> (of_char c :: nat) \<and> (of_char c :: nat) \<le> 57"

definition digitsValue :: "string \<Rightarrow> nat" where
  "digitsValue ds = foldl (\<lambda>n c. 10 * n + ((of_char c :: nat) - 48)) 0 ds"

text \<open>White space and line terminators that \<^verbatim>\<open>parseFloat\<close> skips, below code unit 256.\<close>

definition isStrWhiteSpaceChar :: "char \<Rightarrow> bool" where
  "isStrWhiteSpaceChar c \<longleftrightarrow> (of_char c :: nat) \<in> {9, 10, 11, 12, 13, 32, 160}"

text \<open>
  The optional exponent part at the front of the rest of the text: \<open>e\<close> or \<open>E\<close>, an
  optional sign, and at least one digit. Without a digit there is no exponent part, which
  reads as exponent 0.
\<close>

definition scanExponent :: "string \<Rightarrow> int" where
  "scanExponent s =
     (case s of
        [] \<Rightarrow> 0
      | c # t \<Rightarrow>
          if c = CHR ''e'' \<or> c = CHR ''E'' then
            (case t of
               [] \<Rightarrow> 0
             | d # u \<Rightarrow>
                 if d = CHR ''+'' then int (digitsValue (takeWhile isDigit u))
                 else if d = CHR ''-'' then - int (digitsValue (takeWhile isDigit u))
                 else int (digitsValue (takeWhile isDigit t)))
          else 0)"

text \<open>
  The longest prefix that is a \<open>StrUnsignedDecimalLiteral\<close>: \<open>Infinity\<close>, or digits with an
  optional fraction and exponent, or a fraction that starts with the point. No such
  prefix gives \<open>NaN\<close>.
\<close>

definition parseUnsigned :: "string \<Rightarrow> jsnum" where
  "parseUnsigned s =
     (if take 8 s = ''Infinity'' then PosInf
      else let ip = takeWhile isDigit s;
               r1 = dropWhile isDigit s;
               fp = (case r1 of [] \<Rightarrow> [] | c # t \<Rightarrow> if c = CHR ''.'' then takeWhile isDigit t else []);
               r2 = (case r1 of [] \<Rightarrow> [] | c # t \<Rightarrow> if c = CHR ''.'' then dropWhile isDigit t else r1)
           in if ip = [] \<and> fp = [] then NaN
              else numberValue
                     (of_nat (digitsValue (ip @ fp)) * 10 powi (scanExponent r2 - int (length fp))))"

definition parseFloatString :: "string \<Rightarrow> jsnum" where
  "parseFloatString s =
     (case dropWhile isStrWhiteSpaceChar s of
        [] \<Rightarrow> NaN
      | c # t \<Rightarrow>
          if c = CHR ''-'' then negate (parseUnsigned t)
          else if c = CHR ''+'' then parseUnsigned t
          else parseUnsigned (c # t))"

subsection \<open>Values of a JSON reply\<close>

text \<open>
  The scalar values a field of the GoPlus reply can hold; \<open>JUndefined\<close> is what reading an
  absent property gives. Nested arrays and objects as field values are outside the model.
\<close>

datatype jsval = JUndefined | JNull | JBoolean bool | JNumber jsnum | JString string

type_synonym jsobject = "string \<rightharpoonup> jsval"

definition getProp :: "jsobject \<Rightarrow> string \<Rightarrow> jsval" where
  "getProp obj k = (case obj k of None \<Rightarrow> JUndefined | Some v \<Rightarrow> v)"

fun truthy :: "jsval \<Rightarrow> bool" where
  "truthy JUndefined = False"
| "truthy JNull = False"
| "truthy (JBoolean b) = b"
| "truthy (JNumber n) = (n \<noteq> NaN \<and> n \<noteq> Fin 0)"
| "truthy (JString s) = (s \<noteq> [])"

text \<open>\<^verbatim>\<open>a || b\<close>\<close>

definition js_or :: "jsval \<Rightarrow> jsval \<Rightarrow> jsval" where
  "js_or a b = (if truthy a then a else b)"

text \<open>
  \<^verbatim>\<open>parseFloat(v)\<close> converts its argument to a string and parses that. For a Number the
  string is the shortest decimal that reads back as the same Number, so the result is the
  Number itself.
\<close>

fun parseFloat :: "jsval \<Rightarrow> jsnum" where
  "parseFloat JUndefined = parseFloatString ''undefined''"
| "parseFloat JNull = parseFloatString ''null''"
| "parseFloat (JBoolean b) = parseFloatString (if b then ''true'' else ''false'')"
| "parseFloat (JNumber n) = n"
| "parseFloat (JString s) = parseFloatString s"

section \<open>GoPlus security scan (lines 55-92)\<close>

record scanResult =
  score :: int
  isHoneypot :: bool
  isMintable :: bool
  ownerCanWithdraw :: bool
  rawData :: jsobject

text \<open>Lines 69-79: the score of a reply entry \<open>result\<close>, statement by statement.\<close>

definition computeScore :: "jsobject \<Rightarrow> int" where
  "computeScore result =
     (let score = 100;
          score = (if getProp result ''is_honeypot'' = JString ''1'' then score - 100 else score);
          score = (if getProp result ''is_open_source'' = JString ''0'' then score - 20 else score);
          score = (if getProp result ''is_proxy'' = JString ''1'' then score - 10 else score);
          score = (if getProp result ''is_mintable'' = JString ''1'' then score - 15 else score);
          score = (if getProp result ''can_take_back_ownership'' = JString ''1'' then score - 20 else score);
          score = (if js_gt (parseFloat (js_or (getProp result ''buy_tax'') (JNumber (Fin 0))))
                            (numberValue (1 / 10))
                   then score - 15 else score);
          score = (if js_gt (parseFloat (js_or (getProp result ''sell_tax'') (JNumber (Fin 0))))
                            (numberValue (1 / 10))
                   then score - 15 else score)
      in max 0 (min 100 score))"

text \<open>
  The reply of \<^verbatim>\<open>axios.get\<close>: \<open>Rejected\<close> for a transport error or the 10 s timeout;
  otherwise \<^verbatim>\<open>response.data?.result\<close>, \<open>None\<close> when the optional chain stops at a missing
  \<^verbatim>\<open>data\<close> or \<^verbatim>\<open>result\<close>, else the object keyed by lower-cased address.
  \<open>scanWithGoPlus\<close> returns \<open>None\<close> for the JavaScript \<^verbatim>\<open>null\<close>.
\<close>

type_synonym goplus_reply = "(string \<rightharpoonup> jsobject) option outcome"

text \<open>Line 63, for a reply that arrived: \<^verbatim>\<open>response.data?.result?.[address.toLowerCase()]\<close>.\<close>

definition replyEntry :: "(string \<rightharpoonup> jsobject) option \<Rightarrow> string \<Rightarrow> jsobject option" where
  "replyEntry body address =
     (case body of None \<Rightarrow> None | Some entries \<Rightarrow> entries (toLowerCase address))"

definition scanWithGoPlus :: "goplus_reply \<Rightarrow> string \<Rightarrow> scanResult option" where
  "scanWithGoPlus response address =
     (case response of
        Rejected \<Rightarrow> None
      | Resolved body \<Rightarrow>
          (case replyEntry body address of
             None \<Rightarrow> None
           | Some result \<Rightarrow>
               Some \<lparr> score = computeScore result,
                      isHoneypot = (getProp result ''is_honeypot'' = JString ''1''),
                      isMintable = (getProp result ''is_mintable'' = JString ''1''),
                      ownerCanWithdraw = (getProp result ''can_take_back_ownership'' = JString ''1''),
                      rawData = result \<rparr>))"

subsection \<open>The score as the specification words it\<close>

text \<open>
  Section 4.1 of the specification: start at 100, subtract each penalty that applies, clamp
  the sum into the interval from 0 to 100. A tax is penalised when the field parses to a
  value above 0.1.
\<close>

definition specPenalty :: "bool \<Rightarrow> int \<Rightarrow> int" where
  "specPenalty applies points = (if applies then points else 0)"

definition specTaxAbove :: "jsval \<Rightarrow> bool" where
  "specTaxAbove field = js_gt (parseFloat field) (numberValue (1 / 10))"

definition specClamp :: "int \<Rightarrow> int" where
  "specClamp x = (if x < 0 then 0 else if 100 < x then 100 else x)"

definition specScore :: "jsobject \<Rightarrow> int" where
  "specScore result =
     specClamp
       (100
        - specPenalty (getProp result ''is_honeypot'' = JString ''1'') 100
        - specPenalty (getProp result ''is_open_source'' = JString ''0'') 20
        - specPenalty (getProp result ''is_proxy'' = JString ''1'') 10
        - specPenalty (getProp result ''is_mintable'' = JString ''1'') 15
        - specPenalty (getProp result ''can_take_back_ownership'' = JString ''1'') 20
        - specPenalty (specTaxAbove (getProp result ''buy_tax'')) 15
        - specPenalty (specTaxAbove (getProp result ''sell_tax'')) 15)"

text \<open>The reply entry of the scenario in section 8 of the specification.\<close>

definition scenarioEntry :: jsobject where
  "scenarioEntry =
     [''is_honeypot'' \<mapsto> JString ''0'', ''is_open_source'' \<mapsto> JString ''0'',
      ''is_proxy'' \<mapsto> JString ''0'', ''is_mintable'' \<mapsto> JString ''1'',
      ''can_take_back_ownership'' \<mapsto> JString ''0'', ''buy_tax'' \<mapsto> JString ''0.15'',
      ''sell_tax'' \<mapsto> JString ''0'']"

section \<open>In-memory database (lines 20-32)\<close>

text \<open>
  The objects pushed by the two call sites of \<^verbatim>\<open>addScan\<close> (lines 132-140 and 202-212).
  \<open>scan_score\<close> is the JavaScript field \<^verbatim>\<open>score\<close> (the name \<open>score\<close> is taken by the scan
  result above); \<open>block_number\<close> and \<open>deployer\<close> are present only in rows of the block
  scanner.
\<close>

record scan =
  contract_address :: string
  scan_score :: int
  is_honeypot :: bool
  is_mintable :: bool
  owner_can_withdraw :: bool
  block_number :: "int option"
  deployer :: "string option"
  has_sbt :: bool
  scanned_at :: string

text \<open>Lines 22-25: \<^verbatim>\<open>push\<close>, then \<^verbatim>\<open>shift\<close> when the array is longer than 1000.\<close>

definition addScan :: "scan list \<Rightarrow> scan \<Rightarrow> scan list" where
  "addScan scans data =
     (let scans = scans @ [data]
      in if length scans > 1000 then tl scans else scans)"

text \<open>Lines 26-28: \<^verbatim>\<open>Array.prototype.find\<close> returns the first element that satisfies the test.\<close>

definition getScan :: "scan list \<Rightarrow> string \<Rightarrow> scan option" where
  "getScan scans address =
     find (\<lambda>s. toLowerCase (contract_address s) = toLowerCase address) scans"

text \<open>
  \<^verbatim>\<open>Array.prototype.slice(start)\<close> for an integer \<open>start\<close>: a negative \<open>start\<close> counts from
  the end, and both ends are clipped to the array.
\<close>

definition slice :: "'a list \<Rightarrow> int \<Rightarrow> 'a list" where
  "slice xs start =
     (let len = int (length xs);
          k = (if start < 0 then max (len + start) 0 else min start len)
      in drop (nat k) xs)"

text \<open>
  Lines 29-31. The argument is \<open>None\<close> when the caller passes none, which selects the
  default 50; the one caller (line 228) passes an integer.
\<close>

definition getRecent :: "scan list \<Rightarrow> int option \<Rightarrow> scan list" where
  "getRecent scans arg =
     (let limit = (case arg of None \<Rightarrow> 50 | Some l \<Rightarrow> l)
      in rev (slice scans (- limit)))"

text \<open>The store after a sequence of \<^verbatim>\<open>addScan\<close> calls, oldest call first.\<close>

definition addScans :: "scan list \<Rightarrow> scan list \<Rightarrow> scan list" where
  "addScans scans ds = foldl addScan scans ds"

text \<open>
  The two rows of the scenario in section 8 of the specification: the same address,
  recorded first with score 80 and then with score 40.
\<close>

definition scenarioA :: scan where
  "scenarioA =
     \<lparr> contract_address = ''0xAbCdEf0123456789aBcDeF0123456789AbCdEf01'', scan_score = 80,
       is_honeypot = False, is_mintable = False, owner_can_withdraw = False,
       block_number = None, deployer = None, has_sbt = True,
       scanned_at = ''2024-01-01T00:00:00.000Z'' \<rparr>"

definition scenarioB :: scan where
  "scenarioB =
     \<lparr> contract_address = ''0xAbCdEf0123456789aBcDeF0123456789AbCdEf01'', scan_score = 40,
       is_honeypot = False, is_mintable = True, owner_can_withdraw = False,
       block_number = None, deployer = None, has_sbt = True,
       scanned_at = ''2024-01-02T00:00:00.000Z'' \<rparr>"

section \<open>Flow A: the AuditRequested handler (lines 96-148)\<close>

record audit_request =
  requestId :: nat
  target :: string
  requester :: string
  fee :: nat

text \<open>One call of \<^verbatim>\<open>contract.fulfillAudit\<close> with its five arguments (the gas limit is fixed).\<close>

datatype chain_write = FulfillAudit nat int bool bool bool

text \<open>
  The receipt of \<^verbatim>\<open>tx.wait()\<close>: its \<^verbatim>\<open>status\<close> is a number or \<^verbatim>\<open>null\<close>. The transaction
  response carries the outcome of its own \<^verbatim>\<open>wait()\<close>, which resolves to a receipt or to
  \<^verbatim>\<open>null\<close>, or rejects.
\<close>

record receipt =
  status :: "int option"

record tx_response =
  wait :: "receipt option outcome"

text \<open>What the collaborators answer during one run of the handler.\<close>

record handler_env =
  axios_get :: goplus_reply
  fulfillAudit :: "tx_response outcome"
  now :: string

text \<open>
  The state the handler works on: the store, and the calls of \<^verbatim>\<open>contract.fulfillAudit\<close>
  made so far (a log kept by the model, oldest first). One run of the handler is followed
  from its start to its end; what other runs do to the store while this one awaits is
  not its own effect.
\<close>

record oracle_state =
  scans :: "scan list"
  chain_writes :: "chain_write list"

text \<open>
  A variable is declared with \<^verbatim>\<open>const\<close> or with \<^verbatim>\<open>let\<close>. Assigning to a \<^verbatim>\<open>const\<close> throws a
  \<open>TypeError\<close> when the assignment runs.
\<close>

datatype 'a binding = ConstBinding 'a | LetBinding 'a

datatype js_error = TypeError | AwaitRejected

fun bindingValue :: "'a binding \<Rightarrow> 'a" where
  "bindingValue (ConstBinding v) = v"
| "bindingValue (LetBinding v) = v"

fun assign :: "'a binding \<Rightarrow> 'a \<Rightarrow> js_error + 'a binding" where
  "assign (ConstBinding v) w = Inl TypeError"
| "assign (LetBinding v) w = Inr (LetBinding w)"

text \<open>Lines 132-140: the row recorded for a fulfilled request.\<close>

definition auditRow :: "handler_env \<Rightarrow> audit_request \<Rightarrow> scanResult \<Rightarrow> scan" where
  "auditRow env req r =
     \<lparr> contract_address = target req,
       scan_score = score r,
       is_honeypot = isHoneypot r,
       is_mintable = isMintable r,
       owner_can_withdraw = ownerCanWithdraw r,
       block_number = None,
       deployer = None,
       has_sbt = True,
       scanned_at = now env \<rparr>"

text \<open>
  The body of the \<^verbatim>\<open>try\<close> block, lines 103-143: the state it leaves, and the error it
  throws if it throws. Line 103 declares \<^verbatim>\<open>const scanResult\<close>; line 107 assigns to it an
  object without \<^verbatim>\<open>rawData\<close> (the empty object here). A rejected \<^verbatim>\<open>await\<close> and reading
  \<^verbatim>\<open>status\<close> of a \<^verbatim>\<open>null\<close> receipt throw as well; the call of \<^verbatim>\<open>contract.fulfillAudit\<close> is
  logged when it is made, whatever comes of it.
\<close>

definition auditRequestedTry ::
  "handler_env \<Rightarrow> audit_request \<Rightarrow> oracle_state \<Rightarrow> js_error option \<times> oracle_state" where
  "auditRequestedTry env req st =
     (let scanResult = ConstBinding (scanWithGoPlus (axios_get env) (target req))
      in case (if bindingValue scanResult = None
               then assign scanResult
                      (Some \<lparr> score = 50, isHoneypot = False, isMintable = False,
                              ownerCanWithdraw = False, rawData = Map.empty \<rparr>)
               else Inr scanResult) of
           Inl err \<Rightarrow> (Some err, st)
         | Inr scanResult \<Rightarrow>
             (case bindingValue scanResult of
                None \<Rightarrow> (Some TypeError, st)
              | Some r \<Rightarrow>
                  let st = st \<lparr> chain_writes := chain_writes st @
                                 [FulfillAudit (requestId req) (score r) (isHoneypot r)
                                    (isMintable r) (ownerCanWithdraw r)] \<rparr>
                  in (case fulfillAudit env of
                        Rejected \<Rightarrow> (Some AwaitRejected, st)
                      | Resolved tx \<Rightarrow>
                          (case wait tx of
                             Rejected \<Rightarrow> (Some AwaitRejected, st)
                           | Resolved None \<Rightarrow> (Some TypeError, st)
                           | Resolved (Some rc) \<Rightarrow>
                               if status rc = Some 1
                               then (None, st \<lparr> scans := addScan (scans st) (auditRow env req r) \<rparr>)
                               else (None, st)))))"

text \<open>The handler: the \<^verbatim>\<open>catch\<close> of line 145 logs the error and nothing more.\<close>

definition onAuditRequested :: "handler_env \<Rightarrow> audit_request \<Rightarrow> oracle_state \<Rightarrow> oracle_state" where
  "onAuditRequested env req st = snd (auditRequestedTry env req st)"

subsection \<open>Concrete runs of the handler\<close>

definition request1 :: audit_request where
  "request1 =
     \<lparr> requestId = 1, target = ''0xAbCdEf0123456789aBcDeF0123456789AbCdEf01'',
       requester = ''0x00000000000000000000000000000000000000aa'', fee = 1000000000000000 \<rparr>"

definition state0 :: oracle_state where
  "state0 = \<lparr> scans = [], chain_writes = [] \<rparr>"

text \<open>
  The scorer is down (the GET is rejected); the chain would accept the transaction and
  report success.
\<close>

definition envScorerDown :: handler_env where
  "envScorerDown =
     \<lparr> axios_get = Rejected,
       fulfillAudit = Resolved \<lparr> wait = Resolved (Some \<lparr> status = Some 1 \<rparr>) \<rparr>,
       now = ''2024-01-01T00:00:00.000Z'' \<rparr>"

text \<open>The scorer answers with the scenario entry; the transaction is included and reverts.\<close>

definition envReverted :: handler_env where
  "envReverted =
     \<lparr> axios_get =
         Resolved (Some [''0xabcdef0123456789abcdef0123456789abcdef01'' \<mapsto> scenarioEntry]),
       fulfillAudit = Resolved \<lparr> wait = Resolved (Some \<lparr> status = Some 0 \<rparr>) \<rparr>,
       now = ''2024-01-01T00:00:00.000Z'' \<rparr>"

section \<open>Flow B: the block scanner (lines 152-180)\<close>

text \<open>
  The two module variables of the scanner, and the block numbers passed to \<^verbatim>\<open>scanBlock\<close> so
  far (a log kept by the model, oldest first). \<^verbatim>\<open>scanBlock\<close> (lines 182-219) has its whole
  body in a \<^verbatim>\<open>try\<close> with an empty \<^verbatim>\<open>catch\<close>, so awaiting it never throws; what it appends to
  the store goes through \<open>addScan\<close>.
\<close>

record sweep =
  lastProcessedBlock :: int
  isScanning :: bool
  scanned :: "int list"

definition sweepInit :: sweep where
  "sweepInit = \<lparr> lastProcessedBlock = 0, isScanning = False, scanned = [] \<rparr>"

text \<open>Lines 169-171, the \<^verbatim>\<open>for\<close> loop.\<close>

function scanLoop :: "int \<Rightarrow> int \<Rightarrow> sweep \<Rightarrow> sweep" where
  "scanLoop blockNum currentBlock s =
     (if blockNum \<le> currentBlock
      then scanLoop (blockNum + 1) currentBlock (s \<lparr> scanned := scanned s @ [blockNum] \<rparr>)
      else s)"
  by pat_completeness auto
termination
  by (relation "measure (\<lambda>(blockNum, currentBlock, s). nat (currentBlock + 1 - blockNum))") auto

declare scanLoop.simps [simp del]

text \<open>Lines 162-164.\<close>

definition initWatermark :: "int \<Rightarrow> sweep \<Rightarrow> sweep" where
  "initWatermark currentBlock s =
     (if lastProcessedBlock s = 0 then s \<lparr> lastProcessedBlock := currentBlock - 1 \<rparr> else s)"

text \<open>
  One call of \<^verbatim>\<open>scanNewBlocks\<close> run to its end with nothing else in between;
  \<open>getBlockNumber\<close> is the outcome of \<^verbatim>\<open>provider.getBlockNumber()\<close>, a block height.
\<close>

definition scanNewBlocks :: "nat outcome \<Rightarrow> sweep \<Rightarrow> sweep" where
  "scanNewBlocks getBlockNumber s =
     (if isScanning s then s
      else let s = s \<lparr> isScanning := True \<rparr>;
               s = (case getBlockNumber of
                      Rejected \<Rightarrow> s
                    | Resolved h \<Rightarrow>
                        let currentBlock = int h;
                            s = initWatermark currentBlock s
                        in if currentBlock > lastProcessedBlock s
                           then (scanLoop (lastProcessedBlock s + 1) currentBlock s)
                                  \<lparr> lastProcessedBlock := currentBlock \<rparr>
                           else s)
           in s \<lparr> isScanning := False \<rparr>)"

text \<open>The states after each of a sequence of ticks, given what each tick reads as head.\<close>

fun sweepRun :: "sweep \<Rightarrow> nat outcome list \<Rightarrow> sweep list" where
  "sweepRun s [] = []"
| "sweepRun s (g # gs) = scanNewBlocks g s # sweepRun (scanNewBlocks g s) gs"

text \<open>The heads read by the ticks that read one.\<close>

fun heads :: "nat outcome list \<Rightarrow> nat list" where
  "heads [] = []"
| "heads (Rejected # gs) = heads gs"
| "heads (Resolved h # gs) = h # heads gs"

subsection \<open>The scanner between its awaits\<close>

text \<open>
  \<^verbatim>\<open>scanNewBlocks\<close> is an \<^verbatim>\<open>async\<close> function: it runs until an \<^verbatim>\<open>await\<close>, and the timer of
  line 221 can call it again before the awaited promise settles. An activation is a call
  suspended at an \<^verbatim>\<open>await\<close>: at line 160, or at line 170 inside the loop with its
  \<^verbatim>\<open>blockNum\<close> and \<^verbatim>\<open>currentBlock\<close>. A configuration is the list of suspended activations
  with the module variables.
\<close>

datatype activation = AwaitHead | AwaitBlock int int

datatype signal = Head "nat outcome" | BlockDone

datatype event = Timer | Settle nat signal

text \<open>
  The loop test of line 169 with what follows it: the next \<^verbatim>\<open>scanBlock\<close> call, or line 173
  and the \<^verbatim>\<open>finally\<close> block. \<open>None\<close> says the call has returned.
\<close>

definition loopTest :: "int \<Rightarrow> int \<Rightarrow> sweep \<Rightarrow> activation option \<times> sweep" where
  "loopTest blockNum currentBlock s =
     (if blockNum \<le> currentBlock
      then (Some (AwaitBlock blockNum currentBlock), s \<lparr> scanned := scanned s @ [blockNum] \<rparr>)
      else (None, s \<lparr> lastProcessedBlock := currentBlock, isScanning := False \<rparr>))"

text \<open>
  An activation runs on when the promise it awaits settles: lines 160-168 after the head
  read, the loop's increment and test after a block scan. A signal other than the one
  awaited (the last equation) does not occur and changes nothing.
\<close>

fun resume :: "activation \<Rightarrow> signal \<Rightarrow> sweep \<Rightarrow> activation option \<times> sweep" where
  "resume AwaitHead (Head Rejected) s = (None, s \<lparr> isScanning := False \<rparr>)"
| "resume AwaitHead (Head (Resolved h)) s =
     (let currentBlock = int h;
          s = initWatermark currentBlock s
      in if currentBlock > lastProcessedBlock s
         then loopTest (lastProcessedBlock s + 1) currentBlock s
         else (None, s \<lparr> isScanning := False \<rparr>))"
| "resume (AwaitBlock blockNum currentBlock) BlockDone s = loopTest (blockNum + 1) currentBlock s"
| "resume a sig s = (Some a, s)"

text \<open>
  One event: the timer calls \<^verbatim>\<open>scanNewBlocks\<close> (lines 156-160, up to the first \<^verbatim>\<open>await\<close>), or
  the promise awaited by the \<open>i\<close>-th activation settles.
\<close>

fun step :: "event \<Rightarrow> activation list \<times> sweep \<Rightarrow> activation list \<times> sweep" where
  "step Timer (acts, s) =
     (if isScanning s then (acts, s)
      else (acts @ [AwaitHead], s \<lparr> isScanning := True \<rparr>))"
| "step (Settle i sig) (acts, s) =
     (if i < length acts
      then (case resume (acts ! i) sig s of
              (None, s') \<Rightarrow> (take i acts @ drop (Suc i) acts, s')
            | (Some a, s') \<Rightarrow> (acts[i := a], s'))
      else (acts, s))"

text \<open>The configurations the program can be in: from the start, by any events.\<close>

inductive reachable :: "activation list \<times> sweep \<Rightarrow> bool" where
  start: "reachable ([], sweepInit)"
| after: "reachable c \<Longrightarrow> reachable (step e c)"

definition run :: "activation list \<times> sweep \<Rightarrow> event list \<Rightarrow> activation list \<times> sweep" where
  "run c es = foldl (\<lambda>c e. step e c) c es"

text \<open>
  Single flight: either no call is suspended and the flag is down, or exactly one call is
  suspended and the flag is up.
\<close>

definition singleFlight :: "activation list \<times> sweep \<Rightarrow> bool" where
  "singleFlight c \<longleftrightarrow>
     (fst c = [] \<and> \<not> isScanning (snd c)) \<or> (length (fst c) = 1 \<and> isScanning (snd c))"

text \<open>The configuration after a call has run on: it is suspended again, or has returned.\<close>

definition resumed :: "activation option \<times> sweep \<Rightarrow> activation list \<times> sweep" where
  "resumed r = (case r of (None, s) \<Rightarrow> ([], s) | (Some a, s) \<Rightarrow> ([a], s))"

section \<open>Evaluating numbers and parses\<close>

lemma floor_numeral_div: "\<lfloor>numeral a / numeral b :: rat\<rfloor> = numeral a div numeral b"
  using floor_divide_of_int_eq [of "numeral a" "numeral b", where ?'a = rat] by simp

lemma quotient_of_tenth: "quotient_of (1 / 10) = (1, 10)"
  by code_simp

lemma quotient_of_3_20: "quotient_of (3 / 20) = (3, 20)"
  by code_simp

lemma bitlen_values: "bitlen (Suc 0) = 1" "bitlen 3 = 2" "bitlen 10 = 4" "bitlen 20 = 5"
  by code_simp+

text \<open>The literal \<^verbatim>\<open>0.1\<close> of lines 76 and 77 is the double \<open>0x3FB999999999999A\<close>.\<close>

lemma numberValue_tenth: "numberValue (1 / 10) = Fin (3602879701896397 / 36028797018963968)"
  unfolding numberValue_def ilog2_def roundHalfEven_def Let_def
  by (simp add: quotient_of_tenth bitlen_values power_int_minus floor_numeral_div del: bitlen.simps)

lemma numberValue_3_20: "numberValue (3 / 20) = Fin (5404319552844595 / 36028797018963968)"
  unfolding numberValue_def ilog2_def roundHalfEven_def Let_def
  by (simp add: quotient_of_3_20 bitlen_values power_int_minus floor_numeral_div del: bitlen.simps)

lemmas parse_defs =
  parseFloatString_def parseUnsigned_def isDigit_def isStrWhiteSpaceChar_def
  digitsValue_def scanExponent_def Let_def

lemma parse_015: "parseFloatString ''0.15'' = Fin (5404319552844595 / 36028797018963968)"
  by (simp add: parse_defs power_int_minus numberValue_3_20)

lemma parse_0: "parseFloatString ''0'' = Fin 0"
  by (simp add: parse_defs numberValue_def)

lemma parse_words:
  "parseFloatString ''undefined'' = NaN"
  "parseFloatString ''null'' = NaN"
  "parseFloatString ''false'' = NaN"
  "parseFloatString [] = NaN"
  "parseFloatString ''abc'' = NaN"
  by (simp_all add: parse_defs)

lemma zero_not_above_tenth: "js_gt (Fin 0) (numberValue (1 / 10)) = False"
  by (simp add: numberValue_tenth)

section \<open>The score\<close>

text \<open>
  Replacing a falsy tax field by \<open>0\<close> before parsing (lines 76-77) never changes whether the
  tax is above 0.1: the falsy values parse to \<open>NaN\<close> or are the Number 0 already.
\<close>

lemma or_zero_irrelevant:
  "js_gt (parseFloat (js_or v (JNumber (Fin 0)))) (numberValue (1 / 10)) = specTaxAbove v"
proof (cases "truthy v")
  case True
  then show ?thesis by (simp add: js_or_def specTaxAbove_def)
next
  case False
  then have "parseFloat v = NaN \<or> parseFloat v = Fin 0"
    by (cases v) (auto simp: parse_words)
  with False show ?thesis
    by (auto simp: js_or_def specTaxAbove_def zero_not_above_tenth)
qed

lemma if_penalty: "(if b then s - p else s) = s - specPenalty b p"
  by (simp add: specPenalty_def)

lemma max_min_specClamp: "max 0 (min 100 x) = specClamp x"
  by (simp add: specClamp_def)

lemma computeScore_specScore: "computeScore result = specScore result"
  unfolding computeScore_def specScore_def Let_def or_zero_irrelevant if_penalty max_min_specClamp
  by (rule refl)

lemma specPenalty_nonneg: "0 \<le> p \<Longrightarrow> 0 \<le> specPenalty b p"
  by (simp add: specPenalty_def)

lemma getProp_upd: "getProp (obj(k \<mapsto> v)) k' = (if k' = k then v else getProp obj k')"
  by (simp add: getProp_def)

lemma scenario_score: "computeScore scenarioEntry = 50"
  by (simp add: computeScore_def scenarioEntry_def getProp_def js_or_def parse_015 parse_0
      numberValue_tenth)

text \<open>
  C2. For every reply, the score that \<open>scanWithGoPlus\<close> returns for the entry of the address
  is the score of the specification: 100 minus 100 for a honeypot, 20 for closed source, 10
  for a proxy, 15 for mintable, 20 for ownership that can be taken back, 15 for a buy tax
  that parses above 0.1 and 15 for such a sell tax, clamped into 0..100. The entry of the
  scenario (closed source, mintable, buy tax 0.15) scores 50.
\<close>

theorem scanWithGoPlus_score_is_specScore:
  "map_option score (scanWithGoPlus (Resolved body) address)
     = map_option specScore (replyEntry body address)
   \<and> computeScore result = specScore result
   \<and> computeScore scenarioEntry = 50"
proof -
  have "map_option score (scanWithGoPlus (Resolved body) address)
          = map_option specScore (replyEntry body address)"
    by (simp add: scanWithGoPlus_def computeScore_specScore split: option.splits)
  then show ?thesis
    using computeScore_specScore scenario_score by blast
qed

text \<open>
  C6. An entry with \<open>is_honeypot = "1"\<close> scores 0, whatever its other fields hold: the
  penalties add up before the clamp.
\<close>

theorem honeypot_scores_zero:
  assumes "getProp result ''is_honeypot'' = JString ''1''"
  shows "computeScore result = 0
         \<and> (replyEntry body address = Some result
              \<longrightarrow> map_option score (scanWithGoPlus (Resolved body) address) = Some 0)"
proof -
  have hp: "specPenalty (getProp result ''is_honeypot'' = JString ''1'') 100 = 100"
    using assms by (simp add: specPenalty_def)
  have zero: "computeScore result = 0"
    unfolding computeScore_specScore specScore_def hp
    using specPenalty_nonneg [of 20 "getProp result ''is_open_source'' = JString ''0''"]
      specPenalty_nonneg [of 10 "getProp result ''is_proxy'' = JString ''1''"]
      specPenalty_nonneg [of 15 "getProp result ''is_mintable'' = JString ''1''"]
      specPenalty_nonneg [of 20 "getProp result ''can_take_back_ownership'' = JString ''1''"]
      specPenalty_nonneg [of 15 "specTaxAbove (getProp result ''buy_tax'')"]
      specPenalty_nonneg [of 15 "specTaxAbove (getProp result ''sell_tax'')"]
    by (simp add: specClamp_def)
  then show ?thesis
    by (simp add: scanWithGoPlus_def)
qed

theorem honeypot_scores_zero_witness:
  "getProp [''is_honeypot'' \<mapsto> JString ''1'', ''is_mintable'' \<mapsto> JString ''1''] ''is_honeypot''
     = JString ''1''
   \<and> computeScore [''is_honeypot'' \<mapsto> JString ''1'', ''is_mintable'' \<mapsto> JString ''1''] = 0"
proof -
  have h: "getProp [''is_honeypot'' \<mapsto> JString ''1'', ''is_mintable'' \<mapsto> JString ''1'']
             ''is_honeypot'' = JString ''1''"
    by (simp add: getProp_def)
  from honeypot_scores_zero [OF h] h show ?thesis by simp
qed

text \<open>
  C10. A tax field that is missing, empty, or does not parse to a number never costs the
  15 points: the comparison with 0.1 is false for it, and the score is what it is with
  that field holding \<open>"0"\<close>.
\<close>

theorem unparsable_tax_no_penalty:
  assumes field: "f = ''buy_tax'' \<or> f = ''sell_tax''"
    and unparsable: "result f = None \<or> result f = Some (JString []) \<or> parseFloat (getProp result f) = NaN"
  shows "\<not> js_gt (parseFloat (js_or (getProp result f) (JNumber (Fin 0)))) (numberValue (1 / 10))
         \<and> computeScore result = computeScore (result(f \<mapsto> JString ''0''))"
proof -
  from unparsable have nan: "parseFloat (getProp result f) = NaN"
    by (auto simp: getProp_def parse_words)
  then have no: "\<not> specTaxAbove (getProp result f)"
    by (simp add: specTaxAbove_def)
  have zero: "\<not> specTaxAbove (JString ''0'')"
    by (simp add: specTaxAbove_def parse_0 zero_not_above_tenth)
  from field no zero have "specScore result = specScore (result(f \<mapsto> JString ''0''))"
    by (auto simp: specScore_def getProp_upd)
  with no show ?thesis
    by (simp add: computeScore_specScore or_zero_irrelevant)
qed

theorem unparsable_tax_no_penalty_witness:
  "parseFloat (getProp [''buy_tax'' \<mapsto> JString ''abc''] ''buy_tax'') = NaN
   \<and> computeScore [''buy_tax'' \<mapsto> JString ''abc'']
       = computeScore ([''buy_tax'' \<mapsto> JString ''abc''](''buy_tax'' \<mapsto> JString ''0''))"
proof -
  have h: "parseFloat (getProp [''buy_tax'' \<mapsto> JString ''abc''] ''buy_tax'') = NaN"
    by (simp add: getProp_def parse_words)
  from unparsable_tax_no_penalty [of "''buy_tax''" "[''buy_tax'' \<mapsto> JString ''abc'']"] h
  show ?thesis by simp
qed

section \<open>The store\<close>

lemma addScan_full: "length s = 1000 \<Longrightarrow> addScan s d = tl s @ [d]"
  by (cases s) (simp_all add: addScan_def Let_def)

lemma addScan_room: "length s < 1000 \<Longrightarrow> addScan s d = s @ [d]"
  by (simp add: addScan_def Let_def)

lemma length_addScan: "length s \<le> 1000 \<Longrightarrow> length (addScan s d) \<le> 1000"
  by (cases "length s = 1000") (simp_all add: addScan_full addScan_room)

lemma addScans_drop:
  "length s \<le> 1000 \<Longrightarrow> addScans s ds = drop (length s + length ds - 1000) (s @ ds)"
proof (induction ds arbitrary: s)
  case Nil
  then show ?case by (simp add: addScans_def)
next
  case (Cons d ds)
  have step: "addScans s (d # ds) = addScans (addScan s d) ds"
    by (simp add: addScans_def)
  have len: "length (addScan s d) \<le> 1000"
    using Cons.prems by (rule length_addScan)
  show ?case
  proof (cases "length s = 1000")
    case True
    then have "addScan s d = tl s @ [d]"
      by (rule addScan_full)
    moreover from True have "length (tl s @ [d]) = 1000" by simp
    ultimately have "addScans s (d # ds) = drop (length ds) (tl s @ d # ds)"
      using Cons.IH [of "tl s @ [d]"] step by simp
    also have "\<dots> = drop (Suc (length ds)) (s @ d # ds)"
      using True by (cases s) simp_all
    finally show ?thesis using True by simp
  next
    case False
    with Cons.prems have "addScan s d = s @ [d]" "length (s @ [d]) \<le> 1000"
      by (simp_all add: addScan_room)
    then show ?thesis
      using Cons.IH [of "s @ [d]"] step by simp
  qed
qed

text \<open>
  C3. Whatever is appended, the store never holds more than 1000 rows, and what it holds
  is the last 1000 rows appended, in the order of insertion. After 1000 + k appends
  (k at most 1000) it holds 1000 rows: the last 1000 - k of the first thousand, then the k
  most recent.
\<close>

theorem addScans_capacity_eviction:
  "length (addScans [] ds) \<le> 1000
   \<and> addScans [] ds = drop (length ds - 1000) ds
   \<and> (length earlier = 1000 \<and> length recent = k \<and> k \<le> 1000
        \<longrightarrow> length (addScans [] (earlier @ recent)) = 1000
            \<and> addScans [] (earlier @ recent) = drop k earlier @ recent)"
  by (auto simp: addScans_drop)

theorem addScans_capacity_eviction_witness:
  "length (replicate 1000 scenarioA) = 1000
   \<and> length (addScans [] (replicate 1000 scenarioA @ [scenarioB])) = 1000
   \<and> addScans [] (replicate 1000 scenarioA @ [scenarioB]) = drop 1 (replicate 1000 scenarioA) @ [scenarioB]"
  using addScans_capacity_eviction [of "replicate 1000 scenarioA @ [scenarioB]" "replicate 1000 scenarioA" "[scenarioB]" 1]
  by simp

lemma getScan_example: "getScan [scenarioA, scenarioB] ''0XABCDEF0123456789ABCDEF0123456789ABCDEF01'' = Some scenarioA"
  by code_simp

text \<open>
  C7. \<open>getScan\<close> compares addresses after lower-casing both. It returns nothing exactly
  when no row matches, and otherwise the matching row with the least index, which is the
  one inserted first. With the two rows of the scenario it returns the first, of score 80.
\<close>

theorem getScan_earliest_match:
  "(getScan db address = None
      \<longleftrightarrow> (\<forall>s \<in> set db. toLowerCase (contract_address s) \<noteq> toLowerCase address))
   \<and> (getScan db address = Some r
      \<longleftrightarrow> (\<exists>i < length db. db ! i = r
             \<and> toLowerCase (contract_address r) = toLowerCase address
             \<and> (\<forall>j < i. toLowerCase (contract_address (db ! j)) \<noteq> toLowerCase address)))
   \<and> getScan [scenarioA, scenarioB] ''0XABCDEF0123456789ABCDEF0123456789ABCDEF01'' = Some scenarioA"
proof (intro conjI)
  show "getScan db address = None
      \<longleftrightarrow> (\<forall>s \<in> set db. toLowerCase (contract_address s) \<noteq> toLowerCase address)"
    by (auto simp: getScan_def find_None_iff)
  show "getScan db address = Some r
      \<longleftrightarrow> (\<exists>i < length db. db ! i = r
             \<and> toLowerCase (contract_address r) = toLowerCase address
             \<and> (\<forall>j < i. toLowerCase (contract_address (db ! j)) \<noteq> toLowerCase address))"
    unfolding getScan_def find_Some_iff by auto
  show "getScan [scenarioA, scenarioB] ''0XABCDEF0123456789ABCDEF0123456789ABCDEF01'' = Some scenarioA"
    by (rule getScan_example)
qed

theorem getScan_earliest_match_witness:
  "getScan [scenarioB, scenarioA] ''0xabcdef0123456789abcdef0123456789abcdef01'' = Some scenarioB"
proof -
  have m: "toLowerCase (contract_address scenarioB) = toLowerCase ''0xabcdef0123456789abcdef0123456789abcdef01''"
    by code_simp
  have "\<exists>i < length [scenarioB, scenarioA]. [scenarioB, scenarioA] ! i = scenarioB
             \<and> toLowerCase (contract_address scenarioB) = toLowerCase ''0xabcdef0123456789abcdef0123456789abcdef01''
             \<and> (\<forall>j < i. toLowerCase (contract_address ([scenarioB, scenarioA] ! j)) \<noteq> toLowerCase ''0xabcdef0123456789abcdef0123456789abcdef01'')"
    using m by (intro exI [of _ 0]) simp
  with getScan_earliest_match [of "[scenarioB, scenarioA]" "''0xabcdef0123456789abcdef0123456789abcdef01''" scenarioB]
  show ?thesis by blast
qed

lemma rev_slice_neg:
  assumes "1 \<le> limit"
  shows "rev (slice xs (- limit)) = take (nat limit) (rev xs)"
proof -
  have "slice xs (- limit) = drop (length xs - nat limit) xs"
    using assms by (simp add: slice_def Let_def max_def nat_diff_distrib')
  then show ?thesis
    by (cases "nat limit \<le> length xs") (simp_all add: rev_drop)
qed

text \<open>
  C9, amended. For every store and every limit of at least 1, \<open>getRecent\<close> returns the
  rows most recent first, as many as the limit allows: the first \<open>limit\<close> rows of the store
  reversed, so \<open>min(limit, size)\<close> of them.
\<close>

theorem getRecent_positive_limit:
  "1 \<le> limit \<Longrightarrow>
     getRecent db (Some limit) = take (nat limit) (rev db)
     \<and> int (length (getRecent db (Some limit))) = min limit (int (length db))"
  by (auto simp: getRecent_def rev_slice_neg)

text \<open>
  C9, as stated, fails for the limit 0: \<^verbatim>\<open>slice(-0)\<close> is \<^verbatim>\<open>slice(0)\<close>, the whole array, so
  two rows come back where the bound \<open>min(0, 2)\<close> allows none.
\<close>

theorem getRecent_zero_limit_counterexample: "\<not> int (length (getRecent [scenarioA, scenarioB] (Some 0))) \<le> min 0 (int (length [scenarioA, scenarioB]))"
  by (simp add: getRecent_def slice_def)

theorem getRecent_positive_limit_witness:
  "(1::int) \<le> 1 \<and> getRecent [scenarioA, scenarioB] (Some 1) = [scenarioB]"
  using getRecent_positive_limit [of 1 "[scenarioA, scenarioB]"] by simp

section \<open>The AuditRequested handler\<close>

lemma scorer_down_throws:
  "scanWithGoPlus (axios_get env) (target req) = None \<Longrightarrow>
     auditRequestedTry env req st = (Some TypeError, st)"
  by (simp add: auditRequestedTry_def)

lemma auditRequestedTry_scored:
  assumes "scanWithGoPlus (axios_get env) (target req) = Some r"
  shows "auditRequestedTry env req st =
     (let st1 = st \<lparr> chain_writes := chain_writes st @
                       [FulfillAudit (requestId req) (score r) (isHoneypot r) (isMintable r)
                          (ownerCanWithdraw r)] \<rparr>
      in case fulfillAudit env of
           Rejected \<Rightarrow> (Some AwaitRejected, st1)
         | Resolved tx \<Rightarrow>
             (case wait tx of
                Rejected \<Rightarrow> (Some AwaitRejected, st1)
              | Resolved None \<Rightarrow> (Some TypeError, st1)
              | Resolved (Some rc) \<Rightarrow>
                  if status rc = Some 1
                  then (None, st1 \<lparr> scans := addScan (scans st1) (auditRow env req r) \<rparr>)
                  else (None, st1)))"
  using assms by (simp add: auditRequestedTry_def Let_def)

text \<open>
  C1. With the scorer down, \<open>scanWithGoPlus\<close> returns \<^verbatim>\<open>null\<close>, line 107 assigns the
  fallback to the \<^verbatim>\<open>const\<close> of line 103, and that assignment throws: the handler ends in
  its \<^verbatim>\<open>catch\<close> without having called \<^verbatim>\<open>contract.fulfillAudit\<close>.
\<close>

theorem scorer_down_no_chain_write: "scanWithGoPlus (axios_get envScorerDown) (target request1) = None
  \<and> auditRequestedTry envScorerDown request1 state0 = (Some TypeError, state0)
  \<and> chain_writes (onAuditRequested envScorerDown request1 state0) = []"
proof -
  have down: "scanWithGoPlus (axios_get envScorerDown) (target request1) = None"
    by (simp add: envScorerDown_def scanWithGoPlus_def)
  from scorer_down_throws [OF down, of state0] down show ?thesis
    by (simp add: onAuditRequested_def state0_def)
qed

text \<open>
  C8. One run of the handler calls \<^verbatim>\<open>contract.fulfillAudit\<close> at most once. When the
  transaction was submitted and a receipt came back, exactly one call was made; with a
  status other than 1 the store is as before, and with status 1 the store has the row of
  the request appended, with \<open>has_sbt\<close> true. The store changes only in that last case.
\<close>

theorem reverted_fulfillment_no_append:
  "(\<exists>ws. chain_writes (onAuditRequested env req st) = chain_writes st @ ws \<and> length ws \<le> 1)
   \<and> (scanWithGoPlus (axios_get env) (target req) = Some r
        \<and> fulfillAudit env = Resolved tx \<and> wait tx = Resolved (Some rc)
      \<longrightarrow> chain_writes (onAuditRequested env req st)
            = chain_writes st @ [FulfillAudit (requestId req) (score r) (isHoneypot r)
                                   (isMintable r) (ownerCanWithdraw r)]
          \<and> (status rc \<noteq> Some 1 \<longrightarrow> scans (onAuditRequested env req st) = scans st)
          \<and> (status rc = Some 1
               \<longrightarrow> scans (onAuditRequested env req st) = addScan (scans st) (auditRow env req r)
                   \<and> has_sbt (auditRow env req r)))
   \<and> (scans (onAuditRequested env req st) \<noteq> scans st
      \<longrightarrow> (\<exists>r tx rc. scanWithGoPlus (axios_get env) (target req) = Some r
             \<and> fulfillAudit env = Resolved tx \<and> wait tx = Resolved (Some rc)
             \<and> status rc = Some 1))"
proof (cases "scanWithGoPlus (axios_get env) (target req)")
  case None
  then show ?thesis
    by (simp add: onAuditRequested_def scorer_down_throws)
next
  case (Some r')
  show ?thesis
    unfolding onAuditRequested_def auditRequestedTry_scored [OF Some] Let_def
    by (auto simp: Some auditRow_def split: outcome.splits option.splits)
qed

lemma lower_target:
  "toLowerCase ''0xAbCdEf0123456789aBcDeF0123456789AbCdEf01'' = ''0xabcdef0123456789abcdef0123456789abcdef01''"
  by code_simp

lemma scan_reverted:
  "scanWithGoPlus (axios_get envReverted) (target request1)
     = Some \<lparr> score = 50, isHoneypot = False, isMintable = True, ownerCanWithdraw = False,
              rawData = scenarioEntry \<rparr>"
  by (simp add: envReverted_def request1_def scanWithGoPlus_def replyEntry_def lower_target
      scenario_score) (simp add: scenarioEntry_def getProp_def)

theorem reverted_fulfillment_no_append_witness:
  "scans (onAuditRequested envReverted request1 state0) = []
   \<and> chain_writes (onAuditRequested envReverted request1 state0) = [FulfillAudit 1 50 False True False]"
  using reverted_fulfillment_no_append [of envReverted request1 state0
      "\<lparr> score = 50, isHoneypot = False, isMintable = True, ownerCanWithdraw = False, rawData = scenarioEntry \<rparr>"
      "\<lparr> wait = Resolved (Some \<lparr> status = Some 0 \<rparr>) \<rparr>" "\<lparr> status = Some 0 \<rparr>"]
    scan_reverted
  by (simp add: envReverted_def state0_def request1_def)

section \<open>The block scanner\<close>

lemma scanLoop_effect:
  "scanLoop blockNum currentBlock s = s \<lparr> scanned := scanned s @ [blockNum..currentBlock] \<rparr>"
proof (induction blockNum currentBlock s rule: scanLoop.induct)
  case (1 blockNum currentBlock s)
  show ?case
  proof (cases "blockNum \<le> currentBlock")
    case True
    then have "[blockNum..currentBlock] = blockNum # [blockNum + 1..currentBlock]"
      by (simp add: upto_rec1)
    with True "1.IH" show ?thesis
      by (subst scanLoop.simps) simp
  next
    case False
    then show ?thesis
      by (subst scanLoop.simps) simp
  qed
qed

lemma scanNewBlocks_busy: "isScanning s \<Longrightarrow> scanNewBlocks g s = s"
  by (simp add: scanNewBlocks_def)

lemma scanNewBlocks_Rejected: "\<not> isScanning s \<Longrightarrow> scanNewBlocks Rejected s = s"
  by (cases s) (simp add: scanNewBlocks_def)

lemma scanNewBlocks_first:
  assumes "\<not> isScanning s" "lastProcessedBlock s = 0"
  shows "scanNewBlocks (Resolved h) s = s \<lparr> lastProcessedBlock := int h, scanned := scanned s @ [int h] \<rparr>"
  using assms by (cases s) (simp add: scanNewBlocks_def initWatermark_def scanLoop_effect Let_def)

lemma scanNewBlocks_ahead:
  assumes "\<not> isScanning s" "lastProcessedBlock s \<noteq> 0" "lastProcessedBlock s < int h"
  shows "scanNewBlocks (Resolved h) s =
           s \<lparr> lastProcessedBlock := int h,
               scanned := scanned s @ [lastProcessedBlock s + 1..int h] \<rparr>"
  using assms by (cases s) (simp add: scanNewBlocks_def initWatermark_def scanLoop_effect Let_def)

lemma scanNewBlocks_behind:
  assumes "\<not> isScanning s" "lastProcessedBlock s \<noteq> 0" "int h \<le> lastProcessedBlock s"
  shows "scanNewBlocks (Resolved h) s = s"
  using assms by (cases s) (simp add: scanNewBlocks_def initWatermark_def Let_def)

lemma scanNewBlocks_idle: "\<not> isScanning s \<Longrightarrow> \<not> isScanning (scanNewBlocks g s)"
  by (simp add: scanNewBlocks_def Let_def)

lemma scanNewBlocks_watermark:
  assumes "\<not> isScanning s"
  shows "lastProcessedBlock (scanNewBlocks (Resolved h) s) =
           (if lastProcessedBlock s = 0 then int h else max (lastProcessedBlock s) (int h))"
proof (cases "lastProcessedBlock s = 0")
  case True
  with assms show ?thesis by (simp add: scanNewBlocks_first)
next
  case False
  with assms show ?thesis
    by (cases "lastProcessedBlock s < int h")
      (simp_all add: scanNewBlocks_ahead scanNewBlocks_behind)
qed

lemma scanNewBlocks_mono:
  assumes "0 \<le> lastProcessedBlock s"
  shows "lastProcessedBlock s \<le> lastProcessedBlock (scanNewBlocks g s)"
proof (cases "isScanning s")
  case True
  then show ?thesis by (simp add: scanNewBlocks_busy)
next
  case False
  show ?thesis
  proof (cases g)
    case Rejected
    with False show ?thesis by (simp add: scanNewBlocks_Rejected)
  next
    case (Resolved h)
    with False assms show ?thesis by (simp add: scanNewBlocks_watermark)
  qed
qed

lemma sweepRun_sorted:
  "0 \<le> lastProcessedBlock s \<Longrightarrow> sorted (map lastProcessedBlock (s # sweepRun s gs))"
proof (induction gs arbitrary: s)
  case Nil
  then show ?case by simp
next
  case (Cons g gs)
  have le: "lastProcessedBlock s \<le> lastProcessedBlock (scanNewBlocks g s)"
    using Cons.prems by (rule scanNewBlocks_mono)
  with Cons.prems have "0 \<le> lastProcessedBlock (scanNewBlocks g s)" by simp
  from Cons.IH [OF this] le show ?case
    by (simp only: sweepRun.simps list.map sorted2 simp_thms)
qed

lemma sweepRun_tracks_head:
  assumes "\<not> isScanning s" "sorted (heads gs)" "\<forall>h \<in> set (heads gs). lastProcessedBlock s \<le> int h"
    and "i < length gs" "gs ! i = Resolved h"
  shows "lastProcessedBlock (sweepRun s gs ! i) = int h"
  using assms
proof (induction gs arbitrary: s i)
  case Nil
  then show ?case by simp
next
  case (Cons g gs)
  let ?s' = "scanNewBlocks g s"
  have idle: "\<not> isScanning ?s'"
    using Cons.prems(1) by (rule scanNewBlocks_idle)
  show ?case
  proof (cases i)
    case 0
    with Cons.prems have g: "g = Resolved h" and "lastProcessedBlock s \<le> int h"
      by simp_all
    with Cons.prems(1) 0 show ?thesis
      by (simp add: scanNewBlocks_watermark)
  next
    case (Suc j)
    have sorted': "sorted (heads gs)"
      using Cons.prems(2) by (cases g) simp_all
    have above: "\<forall>k \<in> set (heads gs). lastProcessedBlock ?s' \<le> int k"
    proof (cases g)
      case Rejected
      with Cons.prems show ?thesis by (simp add: scanNewBlocks_Rejected)
    next
      case (Resolved h0)
      with Cons.prems have "lastProcessedBlock s \<le> int h0" by simp
      with Cons.prems(1) Resolved have "lastProcessedBlock ?s' = int h0"
        by (simp add: scanNewBlocks_watermark)
      with Cons.prems(2) Resolved show ?thesis by simp
    qed
    from Cons.IH [OF idle sorted' above, of j] Cons.prems Suc show ?thesis
      by simp
  qed
qed

text \<open>
  C4. Over any sequence of ticks, whatever each reads as head or fails to read, the
  watermark never decreases. A tick that finds the watermark 0 sets it to H - 1 for the
  head H it read, scans block H alone, and ends with the watermark H. When the heads read
  do not go backwards, every tick that read a head H ends with the watermark H.
\<close>

theorem watermark_monotone_tracks_head:
  "sorted (map lastProcessedBlock (sweepInit # sweepRun sweepInit gs))
   \<and> (lastProcessedBlock s = 0 \<longrightarrow> lastProcessedBlock (initWatermark (int h) s) = int h - 1)
   \<and> (lastProcessedBlock s = 0 \<and> \<not> isScanning s
        \<longrightarrow> scanned (scanNewBlocks (Resolved h) s) = scanned s @ [int h]
            \<and> lastProcessedBlock (scanNewBlocks (Resolved h) s) = int h)
   \<and> (sorted (heads gs)
        \<longrightarrow> (\<forall>i < length gs. \<forall>k. gs ! i = Resolved k
               \<longrightarrow> lastProcessedBlock (sweepRun sweepInit gs ! i) = int k))"
proof (intro conjI)
  show "sorted (map lastProcessedBlock (sweepInit # sweepRun sweepInit gs))"
    by (rule sweepRun_sorted) (simp add: sweepInit_def)
  show "lastProcessedBlock s = 0 \<longrightarrow> lastProcessedBlock (initWatermark (int h) s) = int h - 1"
    by (simp add: initWatermark_def)
  show "lastProcessedBlock s = 0 \<and> \<not> isScanning s
        \<longrightarrow> scanned (scanNewBlocks (Resolved h) s) = scanned s @ [int h]
            \<and> lastProcessedBlock (scanNewBlocks (Resolved h) s) = int h"
    by (simp add: scanNewBlocks_first)
  show "sorted (heads gs)
        \<longrightarrow> (\<forall>i < length gs. \<forall>k. gs ! i = Resolved k
               \<longrightarrow> lastProcessedBlock (sweepRun sweepInit gs ! i) = int k)"
  proof (intro impI allI)
    fix i k
    assume "sorted (heads gs)" "i < length gs" "gs ! i = Resolved k"
    then show "lastProcessedBlock (sweepRun sweepInit gs ! i) = int k"
      by (intro sweepRun_tracks_head) (simp_all add: sweepInit_def)
  qed
qed

theorem watermark_monotone_tracks_head_witness:
  "sorted (heads [Resolved 103, Resolved 105])
   \<and> lastProcessedBlock (sweepRun sweepInit [Resolved 103, Resolved 105] ! 1) = 105
   \<and> lastProcessedBlock (initWatermark 103 sweepInit) = 102
   \<and> scanned (scanNewBlocks (Resolved 103) sweepInit) = [103]"
proof -
  let ?gs = "[Resolved (103::nat), Resolved 105]"
  note c = watermark_monotone_tracks_head [of ?gs sweepInit 103]
  have s: "sorted (heads ?gs)" by simp
  have init: "lastProcessedBlock sweepInit = 0" "\<not> isScanning sweepInit" "scanned sweepInit = []"
    by (simp_all add: sweepInit_def)
  from c init have a: "lastProcessedBlock (initWatermark (int 103) sweepInit) = int 103 - 1"
    by (simp only: simp_thms)
  from c init have b: "scanned (scanNewBlocks (Resolved 103) sweepInit) = [] @ [int 103]"
    by (simp only: simp_thms)
  note d = c [THEN conjunct2, THEN conjunct2, THEN conjunct2, THEN mp, OF s]
  have e: "lastProcessedBlock (sweepRun sweepInit ?gs ! 1) = int 105"
    by (rule d [THEN spec, of 1, THEN mp, THEN spec, of 105, THEN mp]) simp_all
  from a have a': "lastProcessedBlock (initWatermark 103 sweepInit) = 102" by simp
  from b have b': "scanned (scanNewBlocks (Resolved 103) sweepInit) = [103]" by simp
  from e have e': "lastProcessedBlock (sweepRun sweepInit ?gs ! 1) = 105" by simp
  from s e' a' b' show ?thesis by (intro conjI)
qed

subsection \<open>Single flight\<close>

lemma loopTest_flag:
  "loopTest b c s = (None, s') \<Longrightarrow> \<not> isScanning s'"
  "loopTest b c s = (Some a, s') \<Longrightarrow> isScanning s' = isScanning s"
  by (auto simp: loopTest_def split: if_splits)

lemma initWatermark_flag: "isScanning (initWatermark c s) = isScanning s"
  by (simp add: initWatermark_def)

lemma resume_flag:
  "resume a sig s = (None, s') \<Longrightarrow> \<not> isScanning s'"
  "resume a sig s = (Some a', s') \<Longrightarrow> isScanning s' = isScanning s"
  by (induction a sig s rule: resume.induct;
      auto simp: Let_def initWatermark_flag split: if_splits dest: loopTest_flag)+

lemma singleFlight_step: "singleFlight c \<Longrightarrow> singleFlight (step e c)"
proof (cases c)
  case (Pair acts s)
  assume inv: "singleFlight c"
  show ?thesis
  proof (cases e)
    case Timer
    with Pair inv show ?thesis
      by (auto simp: singleFlight_def)
  next
    case (Settle i sig)
    show ?thesis
    proof (cases "i < length acts")
      case False
      with Pair Settle inv show ?thesis by simp
    next
      case True
      with Pair inv obtain a where acts: "acts = [a]" and i: "i = 0" and busy: "isScanning s"
        by (cases acts) (auto simp: singleFlight_def)
      show ?thesis
      proof (cases "resume a sig s")
        case (Pair r s')
        then show ?thesis
          using \<open>c = (acts, s)\<close> Settle acts i busy resume_flag [of a sig s]
          by (cases r) (auto simp: singleFlight_def)
      qed
    qed
  qed
qed

lemma reachable_singleFlight: "reachable c \<Longrightarrow> singleFlight c"
proof (induction rule: reachable.induct)
  case start
  show ?case by (simp add: singleFlight_def sweepInit_def)
next
  case (after c e)
  then show ?case by (simp add: singleFlight_step)
qed

lemma step_single: "step (Settle 0 sig) ([a], s) = resumed (resume a sig s)"
  by (cases "resume a sig s") (auto simp: resumed_def split: option.splits)

lemma run_Cons: "run c (e # es) = run (step e c) es"
  by (simp add: run_def)

lemma loop_run:
  "\<exists>n. run (resumed (loopTest b c s)) (replicate n (Settle 0 BlockDone))
         = ([], (scanLoop b c s) \<lparr> lastProcessedBlock := c, isScanning := False \<rparr>)"
proof (induction b c s rule: scanLoop.induct)
  case (1 b c s)
  show ?case
  proof (cases "b \<le> c")
    case True
    let ?s1 = "s \<lparr> scanned := scanned s @ [b] \<rparr>"
    from True "1.IH" obtain n where
      n: "run (resumed (loopTest (b + 1) c ?s1)) (replicate n (Settle 0 BlockDone))
            = ([], (scanLoop (b + 1) c ?s1) \<lparr> lastProcessedBlock := c, isScanning := False \<rparr>)"
      by blast
    from True have e: "resumed (loopTest b c s) = ([AwaitBlock b c], ?s1)"
      by (simp add: loopTest_def resumed_def)
    have "step (Settle 0 BlockDone) ([AwaitBlock b c], ?s1) = resumed (loopTest (b + 1) c ?s1)"
      by (simp only: step_single resume.simps)
    then have "run (resumed (loopTest b c s)) (replicate (Suc n) (Settle 0 BlockDone))
                 = run (resumed (loopTest (b + 1) c ?s1)) (replicate n (Settle 0 BlockDone))"
      by (simp only: e replicate_Suc run_Cons)
    moreover from True have "scanLoop b c s = scanLoop (b + 1) c ?s1"
      by (subst scanLoop.simps) simp
    ultimately show ?thesis
      using n by metis
  next
    case False
    then have "resumed (loopTest b c s) = ([], s \<lparr> lastProcessedBlock := c, isScanning := False \<rparr>)"
      by (simp add: loopTest_def resumed_def)
    moreover from False have "scanLoop b c s = s"
      by (subst scanLoop.simps) simp
    ultimately have "run (resumed (loopTest b c s)) (replicate 0 (Settle 0 BlockDone))
        = ([], (scanLoop b c s) \<lparr> lastProcessedBlock := c, isScanning := False \<rparr>)"
      by (simp add: run_def)
    then show ?thesis by blast
  qed
qed

text \<open>
  A tick that nothing interrupts: the timer's call, the head read, and the block scans
  one after the other, end in the state that \<open>scanNewBlocks\<close> computes.
\<close>

lemma run_tick:
  assumes "\<not> isScanning s"
  shows "\<exists>n. run ([], s) (Timer # Settle 0 (Head g) # replicate n (Settle 0 BlockDone))
           = ([], scanNewBlocks g s)"
proof (cases g)
  case Rejected
  with assms have "run ([], s) (Timer # Settle 0 (Head g) # replicate 0 (Settle 0 BlockDone))
           = ([], scanNewBlocks g s)"
    by (simp add: run_def scanNewBlocks_def)
  then show ?thesis by blast
next
  case (Resolved h)
  let ?s1 = "initWatermark (int h) (s \<lparr> isScanning := True \<rparr>)"
  show ?thesis
  proof (cases "lastProcessedBlock ?s1 < int h")
    case True
    from loop_run [of "lastProcessedBlock ?s1 + 1" "int h" ?s1] obtain n where
      n: "run (resumed (loopTest (lastProcessedBlock ?s1 + 1) (int h) ?s1)) (replicate n (Settle 0 BlockDone))
         = ([], (scanLoop (lastProcessedBlock ?s1 + 1) (int h) ?s1) \<lparr> lastProcessedBlock := int h, isScanning := False \<rparr>)"
      by blast
    from assms True Resolved
    have "run ([], s) (Timer # Settle 0 (Head g) # replicate n (Settle 0 BlockDone))
            = run (resumed (loopTest (lastProcessedBlock ?s1 + 1) (int h) ?s1)) (replicate n (Settle 0 BlockDone))"
      by (simp add: run_Cons resumed_def Let_def split: prod.splits option.splits)
    moreover from assms True Resolved
    have "scanNewBlocks g s = (scanLoop (lastProcessedBlock ?s1 + 1) (int h) ?s1) \<lparr> lastProcessedBlock := int h, isScanning := False \<rparr>"
      by (simp add: scanNewBlocks_def Let_def)
    ultimately show ?thesis using n by metis
  next
    case False
    with assms Resolved
    have "run ([], s) (Timer # Settle 0 (Head g) # replicate 0 (Settle 0 BlockDone))
           = ([], scanNewBlocks g s)"
      by (simp add: run_def scanNewBlocks_def Let_def)
    then show ?thesis by blast
  qed
qed

text \<open>
  C5. In every configuration the program can reach, at most one call of \<open>scanNewBlocks\<close>
  is suspended. While one is, the flag is up and a further call by the timer changes
  nothing: no block is scanned and the watermark stays. When none is, the flag is down,
  so the next call by the timer starts a tick; this holds after a tick that ended in the
  \<^verbatim>\<open>catch\<close> block as well, since the rejected head read lowers the flag. Run to its end,
  a call that finds the flag up returns the state as it is, and one that finds it down
  leaves it down.
\<close>

theorem sweep_single_flight:
  assumes "reachable (acts, s)"
  shows "length acts \<le> 1
    \<and> (acts \<noteq> [] \<longrightarrow> isScanning s \<and> step Timer (acts, s) = (acts, s))
    \<and> (acts = [] \<longrightarrow> \<not> isScanning s
          \<and> step Timer (acts, s) = ([AwaitHead], s \<lparr> isScanning := True \<rparr>))
    \<and> step (Settle 0 (Head Rejected)) ([AwaitHead], s) = ([], s \<lparr> isScanning := False \<rparr>)
    \<and> (isScanning s \<longrightarrow> scanNewBlocks g s = s)
    \<and> (\<not> isScanning s \<longrightarrow> \<not> isScanning (scanNewBlocks g s))"
  using reachable_singleFlight [OF assms]
  by (auto simp: singleFlight_def scanNewBlocks_busy scanNewBlocks_idle)


theorem sweep_single_flight_witness:
  "reachable ([AwaitHead], sweepInit \<lparr> isScanning := True \<rparr>)
   \<and> step Timer ([AwaitHead], sweepInit \<lparr> isScanning := True \<rparr>) = ([AwaitHead], sweepInit \<lparr> isScanning := True \<rparr>)
   \<and> reachable ([], sweepInit)
   \<and> \<not> isScanning (snd (step (Settle 0 (Head Rejected)) ([AwaitHead], sweepInit \<lparr> isScanning := True \<rparr>)))"
proof -
  have r0: "reachable ([], sweepInit)" by (rule reachable.start)
  have "reachable (step Timer ([], sweepInit))" using r0 by (rule reachable.after)
  then have r1: "reachable ([AwaitHead], sweepInit \<lparr> isScanning := True \<rparr>)"
    by (simp add: sweepInit_def)
  from sweep_single_flight [OF r1, of Rejected] r0 r1 show ?thesis
    by simp
qed

end
